theory Spec2Isabelle
  imports Main
begin

section \<open>The queue page of \<open>src/components/Queue.tsx\<close>\<close>

text \<open>
  The component keeps its whole state in seven \<open>useState\<close> cells. A handler reads the
  cells of the render it was created in and schedules new values; the model is a record
  of the cells and each handler is a function from the record to the updated record.

  A string of the page is the list of its UTF-16 code units, each an integer from 0 to
  65535, as ECMAScript defines a string value. The two error messages and the text of
  the wait estimate are never taken apart, and stay Isabelle strings. Numbers are
  unbounded integers: the ids and positions of the page are small whole numbers, far from
  the range where a double stops being exact. A \<open>Date\<close> is its millisecond count.
\<close>

subsection \<open>Data\<close>

type_synonym jsstring = "int list"

text \<open>
  A string literal of the source whose characters are all below U+0080: the code unit
  of such a character is its character code.
\<close>

definition lit :: "string \<Rightarrow> jsstring" where
  "lit cs = map of_char cs"

text \<open>\<open>interface QueueMember\<close>; the field \<open>id\<close> is \<open>id_member\<close> here.\<close>

record QueueMember =
  id_member :: int
  firstName :: jsstring
  lastInitial :: jsstring
  joinedTime :: int

text \<open>The \<open>useState\<close> cells of \<open>QueuePage\<close>.\<close>

record state =
  userName :: jsstring
  userFirstName :: jsstring
  userLastInitial :: jsstring
  isInQueue :: bool
  showAddForm :: bool
  formError :: string
  queueList :: "QueueMember list"

text \<open>
  The initial values of the cells; \<open>t0\<close> is \<open>Date.now()\<close> at the first render.
\<close>

definition initialState :: "int \<Rightarrow> state" where
  "initialState t0 =
     \<lparr>userName = [], userFirstName = [], userLastInitial = [],
      isInQueue = False, showAddForm = False, formError = [],
      queueList =
        [\<lparr>id_member = 1, firstName = lit ''John'', lastInitial = lit ''D'',
           joinedTime = t0 - 15 * 60000\<rparr>,
         \<lparr>id_member = 2, firstName = lit ''Jane'', lastInitial = lit ''S'',
           joinedTime = t0 - 10 * 60000\<rparr>,
         \<lparr>id_member = 3, firstName = lit ''Mike'', lastInitial = lit ''J'',
           joinedTime = t0 - 5 * 60000\<rparr>]\<rparr>"

subsection \<open>The string functions the handlers call\<close>

text \<open>
  What \<open>trim\<close> strips: the ECMAScript white space code points (TAB, VT, FF, the byte
  order mark U+FEFF and the space separators of Unicode) and line terminators (LF, CR,
  U+2028, U+2029). All of them are single code units.
\<close>

definition isWhiteSpace :: "int \<Rightarrow> bool" where
  "isWhiteSpace c =
     (c \<in> {0x9, 0xA, 0xB, 0xC, 0xD, 0x20, 0xA0, 0x1680, 0x2000, 0x2001, 0x2002, 0x2003,
            0x2004, 0x2005, 0x2006, 0x2007, 0x2008, 0x2009, 0x200A, 0x2028, 0x2029,
            0x202F, 0x205F, 0x3000, 0xFEFF})"

text \<open>\<open>String.prototype.trim\<close>: white space is dropped at both ends.\<close>

definition trim :: "jsstring \<Rightarrow> jsstring" where
  "trim s = rev (dropWhile isWhiteSpace (rev (dropWhile isWhiteSpace s)))"

text \<open>
  \<open>s.split(sep)\<close> for a separator of one code unit: the pieces between the occurrences
  of \<open>sep\<close>, empty pieces included; the empty string gives one empty piece.
\<close>

fun split :: "jsstring \<Rightarrow> int \<Rightarrow> jsstring list" where
  "split [] sep = [[]]"
| "split (c # cs) sep =
     (if c = sep then [] # split cs sep
      else (case split cs sep of [] \<Rightarrow> [[c]] | t # ts \<Rightarrow> (c # t) # ts))"

text \<open>\<open>s.charAt(i)\<close>: the code unit at \<open>i\<close> as a string, the empty string out of range.\<close>

definition charAt :: "jsstring \<Rightarrow> nat \<Rightarrow> jsstring" where
  "charAt s i = (if i < length s then [s ! i] else [])"

text \<open>
  \<open>String.prototype.toUpperCase\<close> turns the string into code points, maps each code
  point by the locale-insensitive upper-case mapping of the Unicode Character Database
  and turns the result back into code units. The mapping is the one of Unicode 14.0.
  \<open>upperRanges\<close> holds the code points with a single upper-case code point: an entry
  \<open>(lo, hi, step, up)\<close> maps \<open>lo\<close>, \<open>lo + step\<close>, ... up to \<open>hi\<close> to \<open>up\<close>,
  \<open>up + step\<close>, ... \<open>upperSpecial\<close> holds the code points whose upper case is
  several code points (SpecialCasing.txt). Every other code point is its own upper case.
\<close>

definition upperRanges :: "(int \<times> int \<times> int \<times> int) list" where
  "upperRanges =
    [(0x61, 0x7A, 1, 0x41), (0xB5, 0xB5, 1, 0x39C), (0xE0, 0xF6, 1, 0xC0), (0xF8, 0xFE, 1, 0xD8),
     (0xFF, 0xFF, 1, 0x178), (0x101, 0x12F, 2, 0x100), (0x131, 0x131, 1, 0x49), (0x133, 0x137, 2, 0x132),
     (0x13A, 0x148, 2, 0x139), (0x14B, 0x177, 2, 0x14A), (0x17A, 0x17E, 2, 0x179), (0x17F, 0x17F, 1, 0x53),
     (0x180, 0x180, 1, 0x243), (0x183, 0x185, 2, 0x182), (0x188, 0x188, 1, 0x187), (0x18C, 0x18C, 1, 0x18B),
     (0x192, 0x192, 1, 0x191), (0x195, 0x195, 1, 0x1F6), (0x199, 0x199, 1, 0x198), (0x19A, 0x19A, 1, 0x23D),
     (0x19E, 0x19E, 1, 0x220), (0x1A1, 0x1A5, 2, 0x1A0), (0x1A8, 0x1A8, 1, 0x1A7), (0x1AD, 0x1AD, 1, 0x1AC),
     (0x1B0, 0x1B0, 1, 0x1AF), (0x1B4, 0x1B6, 2, 0x1B3), (0x1B9, 0x1B9, 1, 0x1B8), (0x1BD, 0x1BD, 1, 0x1BC),
     (0x1BF, 0x1BF, 1, 0x1F7), (0x1C5, 0x1C5, 1, 0x1C4), (0x1C6, 0x1C6, 1, 0x1C4), (0x1C8, 0x1C8, 1, 0x1C7),
     (0x1C9, 0x1C9, 1, 0x1C7), (0x1CB, 0x1CB, 1, 0x1CA), (0x1CC, 0x1CC, 1, 0x1CA), (0x1CE, 0x1DC, 2, 0x1CD),
     (0x1DD, 0x1DD, 1, 0x18E), (0x1DF, 0x1EF, 2, 0x1DE), (0x1F2, 0x1F2, 1, 0x1F1), (0x1F3, 0x1F3, 1, 0x1F1),
     (0x1F5, 0x1F5, 1, 0x1F4), (0x1F9, 0x21F, 2, 0x1F8), (0x223, 0x233, 2, 0x222), (0x23C, 0x23C, 1, 0x23B),
     (0x23F, 0x240, 1, 0x2C7E), (0x242, 0x242, 1, 0x241), (0x247, 0x24F, 2, 0x246), (0x250, 0x250, 1, 0x2C6F),
     (0x251, 0x251, 1, 0x2C6D), (0x252, 0x252, 1, 0x2C70), (0x253, 0x253, 1, 0x181), (0x254, 0x254, 1, 0x186),
     (0x256, 0x257, 1, 0x189), (0x259, 0x259, 1, 0x18F), (0x25B, 0x25B, 1, 0x190), (0x25C, 0x25C, 1, 0xA7AB),
     (0x260, 0x260, 1, 0x193), (0x261, 0x261, 1, 0xA7AC), (0x263, 0x263, 1, 0x194), (0x265, 0x265, 1, 0xA78D),
     (0x266, 0x266, 1, 0xA7AA), (0x268, 0x268, 1, 0x197), (0x269, 0x269, 1, 0x196), (0x26A, 0x26A, 1, 0xA7AE),
     (0x26B, 0x26B, 1, 0x2C62), (0x26C, 0x26C, 1, 0xA7AD), (0x26F, 0x26F, 1, 0x19C), (0x271, 0x271, 1, 0x2C6E),
     (0x272, 0x272, 1, 0x19D), (0x275, 0x275, 1, 0x19F), (0x27D, 0x27D, 1, 0x2C64), (0x280, 0x280, 1, 0x1A6),
     (0x282, 0x282, 1, 0xA7C5), (0x283, 0x283, 1, 0x1A9), (0x287, 0x287, 1, 0xA7B1), (0x288, 0x288, 1, 0x1AE),
     (0x289, 0x289, 1, 0x244), (0x28A, 0x28B, 1, 0x1B1), (0x28C, 0x28C, 1, 0x245), (0x292, 0x292, 1, 0x1B7),
     (0x29D, 0x29D, 1, 0xA7B2), (0x29E, 0x29E, 1, 0xA7B0), (0x345, 0x345, 1, 0x399), (0x371, 0x373, 2, 0x370),
     (0x377, 0x377, 1, 0x376), (0x37B, 0x37D, 1, 0x3FD), (0x3AC, 0x3AC, 1, 0x386), (0x3AD, 0x3AF, 1, 0x388),
     (0x3B1, 0x3C1, 1, 0x391), (0x3C2, 0x3C2, 1, 0x3A3), (0x3C3, 0x3CB, 1, 0x3A3), (0x3CC, 0x3CC, 1, 0x38C),
     (0x3CD, 0x3CE, 1, 0x38E), (0x3D0, 0x3D0, 1, 0x392), (0x3D1, 0x3D1, 1, 0x398), (0x3D5, 0x3D5, 1, 0x3A6),
     (0x3D6, 0x3D6, 1, 0x3A0), (0x3D7, 0x3D7, 1, 0x3CF), (0x3D9, 0x3EF, 2, 0x3D8), (0x3F0, 0x3F0, 1, 0x39A),
     (0x3F1, 0x3F1, 1, 0x3A1), (0x3F2, 0x3F2, 1, 0x3F9), (0x3F3, 0x3F3, 1, 0x37F),
     (0x3F5, 0x3F5, 1, 0x395), (0x3F8, 0x3F8, 1, 0x3F7), (0x3FB, 0x3FB, 1, 0x3FA),
     (0x430, 0x44F, 1, 0x410), (0x450, 0x45F, 1, 0x400), (0x461, 0x481, 2, 0x460),
     (0x48B, 0x4BF, 2, 0x48A), (0x4C2, 0x4CE, 2, 0x4C1), (0x4CF, 0x4CF, 1, 0x4C0),
     (0x4D1, 0x52F, 2, 0x4D0), (0x561, 0x586, 1, 0x531), (0x10D0, 0x10FA, 1, 0x1C90),
     (0x10FD, 0x10FF, 1, 0x1CBD), (0x13F8, 0x13FD, 1, 0x13F0), (0x1C80, 0x1C80, 1, 0x412),
     (0x1C81, 0x1C81, 1, 0x414), (0x1C82, 0x1C82, 1, 0x41E), (0x1C83, 0x1C84, 1, 0x421),
     (0x1C85, 0x1C85, 1, 0x422), (0x1C86, 0x1C86, 1, 0x42A), (0x1C87, 0x1C87, 1, 0x462),
     (0x1C88, 0x1C88, 1, 0xA64A), (0x1D79, 0x1D79, 1, 0xA77D), (0x1D7D, 0x1D7D, 1, 0x2C63),
     (0x1D8E, 0x1D8E, 1, 0xA7C6), (0x1E01, 0x1E95, 2, 0x1E00), (0x1E9B, 0x1E9B, 1, 0x1E60),
     (0x1EA1, 0x1EFF, 2, 0x1EA0), (0x1F00, 0x1F07, 1, 0x1F08), (0x1F10, 0x1F15, 1, 0x1F18),
     (0x1F20, 0x1F27, 1, 0x1F28), (0x1F30, 0x1F37, 1, 0x1F38), (0x1F40, 0x1F45, 1, 0x1F48),
     (0x1F51, 0x1F57, 2, 0x1F59), (0x1F60, 0x1F67, 1, 0x1F68), (0x1F70, 0x1F71, 1, 0x1FBA),
     (0x1F72, 0x1F75, 1, 0x1FC8), (0x1F76, 0x1F77, 1, 0x1FDA), (0x1F78, 0x1F79, 1, 0x1FF8),
     (0x1F7A, 0x1F7B, 1, 0x1FEA), (0x1F7C, 0x1F7D, 1, 0x1FFA), (0x1FB0, 0x1FB1, 1, 0x1FB8),
     (0x1FBE, 0x1FBE, 1, 0x399), (0x1FD0, 0x1FD1, 1, 0x1FD8), (0x1FE0, 0x1FE1, 1, 0x1FE8),
     (0x1FE5, 0x1FE5, 1, 0x1FEC), (0x214E, 0x214E, 1, 0x2132), (0x2170, 0x217F, 1, 0x2160),
     (0x2184, 0x2184, 1, 0x2183), (0x24D0, 0x24E9, 1, 0x24B6), (0x2C30, 0x2C5F, 1, 0x2C00),
     (0x2C61, 0x2C61, 1, 0x2C60), (0x2C65, 0x2C65, 1, 0x23A), (0x2C66, 0x2C66, 1, 0x23E),
     (0x2C68, 0x2C6C, 2, 0x2C67), (0x2C73, 0x2C73, 1, 0x2C72), (0x2C76, 0x2C76, 1, 0x2C75),
     (0x2C81, 0x2CE3, 2, 0x2C80), (0x2CEC, 0x2CEE, 2, 0x2CEB), (0x2CF3, 0x2CF3, 1, 0x2CF2),
     (0x2D00, 0x2D25, 1, 0x10A0), (0x2D27, 0x2D27, 1, 0x10C7), (0x2D2D, 0x2D2D, 1, 0x10CD),
     (0xA641, 0xA66D, 2, 0xA640), (0xA681, 0xA69B, 2, 0xA680), (0xA723, 0xA72F, 2, 0xA722),
     (0xA733, 0xA76F, 2, 0xA732), (0xA77A, 0xA77C, 2, 0xA779), (0xA77F, 0xA787, 2, 0xA77E),
     (0xA78C, 0xA78C, 1, 0xA78B), (0xA791, 0xA793, 2, 0xA790), (0xA794, 0xA794, 1, 0xA7C4),
     (0xA797, 0xA7A9, 2, 0xA796), (0xA7B5, 0xA7C3, 2, 0xA7B4), (0xA7C8, 0xA7CA, 2, 0xA7C7),
     (0xA7D1, 0xA7D1, 1, 0xA7D0), (0xA7D7, 0xA7D9, 2, 0xA7D6), (0xA7F6, 0xA7F6, 1, 0xA7F5),
     (0xAB53, 0xAB53, 1, 0xA7B3), (0xAB70, 0xABBF, 1, 0x13A0), (0xFF41, 0xFF5A, 1, 0xFF21),
     (0x10428, 0x1044F, 1, 0x10400), (0x104D8, 0x104FB, 1, 0x104B0), (0x10597, 0x105BB, 2, 0x10570),
     (0x10598, 0x105A0, 2, 0x10571), (0x105A4, 0x105B0, 2, 0x1057D), (0x105B4, 0x105B8, 2, 0x1058D),
     (0x105BC, 0x105BC, 1, 0x10595), (0x10CC0, 0x10CF2, 1, 0x10C80), (0x118C0, 0x118DF, 1, 0x118A0),
     (0x16E60, 0x16E7F, 1, 0x16E40), (0x1E922, 0x1E943, 1, 0x1E900)]"

definition upperSpecial :: "(int \<times> int list) list" where
  "upperSpecial =
    [(0xDF, [0x53, 0x53]), (0x149, [0x2BC, 0x4E]), (0x1F0, [0x4A, 0x30C]), (0x390, [0x399, 0x308, 0x301]),
     (0x3B0, [0x3A5, 0x308, 0x301]), (0x587, [0x535, 0x552]), (0x1E96, [0x48, 0x331]), (0x1E97, [0x54, 0x308]),
     (0x1E98, [0x57, 0x30A]), (0x1E99, [0x59, 0x30A]), (0x1E9A, [0x41, 0x2BE]), (0x1F50, [0x3A5, 0x313]),
     (0x1F52, [0x3A5, 0x313, 0x300]), (0x1F54, [0x3A5, 0x313, 0x301]), (0x1F56, [0x3A5, 0x313, 0x342]),
     (0x1F80, [0x1F08, 0x399]), (0x1F81, [0x1F09, 0x399]), (0x1F82, [0x1F0A, 0x399]), (0x1F83, [0x1F0B, 0x399]),
     (0x1F84, [0x1F0C, 0x399]), (0x1F85, [0x1F0D, 0x399]), (0x1F86, [0x1F0E, 0x399]), (0x1F87, [0x1F0F, 0x399]),
     (0x1F88, [0x1F08, 0x399]), (0x1F89, [0x1F09, 0x399]), (0x1F8A, [0x1F0A, 0x399]), (0x1F8B, [0x1F0B, 0x399]),
     (0x1F8C, [0x1F0C, 0x399]), (0x1F8D, [0x1F0D, 0x399]), (0x1F8E, [0x1F0E, 0x399]), (0x1F8F, [0x1F0F, 0x399]),
     (0x1F90, [0x1F28, 0x399]), (0x1F91, [0x1F29, 0x399]), (0x1F92, [0x1F2A, 0x399]), (0x1F93, [0x1F2B, 0x399]),
     (0x1F94, [0x1F2C, 0x399]), (0x1F95, [0x1F2D, 0x399]), (0x1F96, [0x1F2E, 0x399]), (0x1F97, [0x1F2F, 0x399]),
     (0x1F98, [0x1F28, 0x399]), (0x1F99, [0x1F29, 0x399]), (0x1F9A, [0x1F2A, 0x399]), (0x1F9B, [0x1F2B, 0x399]),
     (0x1F9C, [0x1F2C, 0x399]), (0x1F9D, [0x1F2D, 0x399]), (0x1F9E, [0x1F2E, 0x399]), (0x1F9F, [0x1F2F, 0x399]),
     (0x1FA0, [0x1F68, 0x399]), (0x1FA1, [0x1F69, 0x399]), (0x1FA2, [0x1F6A, 0x399]), (0x1FA3, [0x1F6B, 0x399]),
     (0x1FA4, [0x1F6C, 0x399]), (0x1FA5, [0x1F6D, 0x399]), (0x1FA6, [0x1F6E, 0x399]), (0x1FA7, [0x1F6F, 0x399]),
     (0x1FA8, [0x1F68, 0x399]), (0x1FA9, [0x1F69, 0x399]), (0x1FAA, [0x1F6A, 0x399]), (0x1FAB, [0x1F6B, 0x399]),
     (0x1FAC, [0x1F6C, 0x399]), (0x1FAD, [0x1F6D, 0x399]), (0x1FAE, [0x1F6E, 0x399]), (0x1FAF, [0x1F6F, 0x399]),
     (0x1FB2, [0x1FBA, 0x399]), (0x1FB3, [0x391, 0x399]), (0x1FB4, [0x386, 0x399]), (0x1FB6, [0x391, 0x342]),
     (0x1FB7, [0x391, 0x342, 0x399]), (0x1FBC, [0x391, 0x399]), (0x1FC2, [0x1FCA, 0x399]), (0x1FC3, [0x397, 0x399]),
     (0x1FC4, [0x389, 0x399]), (0x1FC6, [0x397, 0x342]), (0x1FC7, [0x397, 0x342, 0x399]), (0x1FCC, [0x397, 0x399]),
     (0x1FD2, [0x399, 0x308, 0x300]), (0x1FD3, [0x399, 0x308, 0x301]), (0x1FD6, [0x399, 0x342]),
     (0x1FD7, [0x399, 0x308, 0x342]), (0x1FE2, [0x3A5, 0x308, 0x300]), (0x1FE3, [0x3A5, 0x308, 0x301]),
     (0x1FE4, [0x3A1, 0x313]), (0x1FE6, [0x3A5, 0x342]), (0x1FE7, [0x3A5, 0x308, 0x342]), (0x1FF2, [0x1FFA, 0x399]),
     (0x1FF3, [0x3A9, 0x399]), (0x1FF4, [0x38F, 0x399]), (0x1FF6, [0x3A9, 0x342]), (0x1FF7, [0x3A9, 0x342, 0x399]),
     (0x1FFC, [0x3A9, 0x399]), (0xFB00, [0x46, 0x46]), (0xFB01, [0x46, 0x49]), (0xFB02, [0x46, 0x4C]),
     (0xFB03, [0x46, 0x46, 0x49]), (0xFB04, [0x46, 0x46, 0x4C]), (0xFB05, [0x53, 0x54]), (0xFB06, [0x53, 0x54]),
     (0xFB13, [0x544, 0x546]), (0xFB14, [0x544, 0x535]), (0xFB15, [0x544, 0x53B]),
     (0xFB16, [0x54E, 0x546]), (0xFB17, [0x544, 0x53D])]"

definition toUppercaseCodePoint :: "int \<Rightarrow> int list" where
  "toUppercaseCodePoint cp =
     (case map_of upperSpecial cp of
        Some ups \<Rightarrow> ups
      | None \<Rightarrow>
          (case find (\<lambda>(lo, hi, step, up). lo \<le> cp \<and> cp \<le> hi \<and> (cp - lo) mod step = 0)
                  upperRanges of
             Some (lo, hi, step, up) \<Rightarrow> [up + (cp - lo)]
           | None \<Rightarrow> [cp]))"

text \<open>
  \<open>StringToCodePoints\<close>: a leading surrogate followed by a trailing surrogate is one
  code point; any other code unit, a lone surrogate too, is a code point of its own.
\<close>

fun stringToCodePoints :: "jsstring \<Rightarrow> int list" where
  "stringToCodePoints (h # l # us) =
     (if 0xD800 \<le> h \<and> h \<le> 0xDBFF \<and> 0xDC00 \<le> l \<and> l \<le> 0xDFFF
      then (0x10000 + (h - 0xD800) * 0x400 + (l - 0xDC00)) # stringToCodePoints us
      else h # stringToCodePoints (l # us))"
| "stringToCodePoints us = us"

text \<open>\<open>UTF16EncodeCodePoint\<close>.\<close>

definition utf16EncodeCodePoint :: "int \<Rightarrow> jsstring" where
  "utf16EncodeCodePoint cp =
     (if cp \<le> 0xFFFF then [cp]
      else [0xD800 + (cp - 0x10000) div 0x400, 0xDC00 + (cp - 0x10000) mod 0x400])"

definition toUpperCase :: "jsstring \<Rightarrow> jsstring" where
  "toUpperCase s =
     concat (map utf16EncodeCodePoint
       (concat (map toUppercaseCodePoint (stringToCodePoints s))))"

subsection \<open>\<open>handleNameSubmit\<close>\<close>

text \<open>
  Lines 48 to 51: the three constants computed from the trimmed input. \<open>nameParts[0]\<close>
  on an empty array would be \<open>undefined\<close>; \<open>split\<close> never returns one.
\<close>

definition nameParts :: "jsstring \<Rightarrow> jsstring list" where
  "nameParts raw = split (trim raw) 0x20"

definition parsedFirstName :: "jsstring \<Rightarrow> jsstring" where
  "parsedFirstName raw = (case nameParts raw of [] \<Rightarrow> [] | t # _ \<Rightarrow> t)"

definition parsedLastInitial :: "jsstring \<Rightarrow> jsstring" where
  "parsedLastInitial raw =
     (if length (nameParts raw) > 1
      then toUpperCase (charAt (nameParts raw ! (length (nameParts raw) - 1)) 0)
      else [])"

text \<open>The predicate of \<open>some\<close>, \<open>filter\<close>, \<open>find\<close> and the list rendering.\<close>

definition isUser :: "jsstring \<Rightarrow> jsstring \<Rightarrow> QueueMember \<Rightarrow> bool" where
  "isUser fn li member = (firstName member = fn \<and> lastInitial member = li)"

text \<open>\<open>Math.max(...queueList.map(m => m.id), 0)\<close>.\<close>

definition maxId :: "QueueMember list \<Rightarrow> int" where
  "maxId ql = foldr max (map id_member ql) 0"

text \<open>
  The handler; \<open>now\<close> is the value of \<open>new Date()\<close>. Both early returns set the
  error message and nothing else.
\<close>

definition handleNameSubmit :: "int \<Rightarrow> state \<Rightarrow> state" where
  "handleNameSubmit now s =
     (if trim (userName s) = [] then s\<lparr>formError := ''Please enter your name''\<rparr>
      else
        let fn = parsedFirstName (userName s);
            li = parsedLastInitial (userName s);
            userExists = list_ex (isUser fn li) (queueList s)
        in if userExists then s\<lparr>formError := ''You are already in the queue''\<rparr>
           else
             let newMember = \<lparr>id_member = maxId (queueList s) + 1, firstName = fn,
                               lastInitial = li, joinedTime = now\<rparr>
             in s\<lparr>userFirstName := fn, userLastInitial := li,
                   queueList := queueList s @ [newMember],
                   isInQueue := True, userName := [], formError := [],
                   showAddForm := False\<rparr>)"

subsection \<open>\<open>handleRemoveFromQueue\<close>\<close>

definition handleRemoveFromQueue :: "state \<Rightarrow> state" where
  "handleRemoveFromQueue s =
     s\<lparr>queueList :=
          filter (\<lambda>member. \<not> isUser (userFirstName s) (userLastInitial s) member) (queueList s),
        isInQueue := False, userFirstName := [], userLastInitial := []\<rparr>"

subsection \<open>\<open>calculateEstimatedWaitTime\<close>\<close>

text \<open>The decimal digits of a natural number, as a template literal prints them.\<close>

fun digits :: "nat \<Rightarrow> string" where
  "digits n =
     (if n < 10 then [char_of (48 + n)]
      else digits (n div 10) @ [char_of (48 + n mod 10)])"

definition numberToString :: "int \<Rightarrow> string" where
  "numberToString i = (if i < 0 then CHR ''-'' # digits (nat (- i)) else digits (nat i))"

text \<open>The remainder \<open>a % b\<close> of ECMAScript takes the sign of \<open>a\<close>.\<close>

definition remainder :: "int \<Rightarrow> int \<Rightarrow> int" where
  "remainder a b = (if a < 0 then - ((- a) mod \<bar>b\<bar>) else a mod \<bar>b\<bar>)"

definition calculateEstimatedWaitTime :: "int \<Rightarrow> string" where
  "calculateEstimatedWaitTime position =
     (let estimatedMinutes = position * 5;
          hours = estimatedMinutes div 60;
          minutes = remainder estimatedMinutes 60
      in if hours > 0 then numberToString hours @ ''h '' @ numberToString minutes @ ''m''
         else numberToString minutes @ ''m'')"

subsection \<open>\<open>userPosition\<close>\<close>

text \<open>\<open>xs.indexOf(x)\<close>: the first index holding \<open>x\<close>, or \<open>-1\<close>.\<close>

fun indexOf :: "'a list \<Rightarrow> 'a \<Rightarrow> int" where
  "indexOf [] x = - 1"
| "indexOf (y # ys) x =
     (if y = x then 0 else (let i = indexOf ys x in if i < 0 then - 1 else i + 1))"

text \<open>
  Lines 109 to 114 for the identity key \<open>(fn, li)\<close>; \<open>None\<close> is \<open>null\<close>.
  The page evaluates it at the key of the current user.
\<close>

definition position :: "jsstring \<Rightarrow> jsstring \<Rightarrow> QueueMember list \<Rightarrow> int option" where
  "position fn li ql =
     (case find (isUser fn li) ql of
        None \<Rightarrow> None
      | Some userQueueMember \<Rightarrow> Some (indexOf ql userQueueMember + 1))"

definition userPosition :: "state \<Rightarrow> int option" where
  "userPosition s = position (userFirstName s) (userLastInitial s) (queueList s)"

subsection \<open>The input field and runs of the page\<close>

text \<open>\<open>onChange\<close> of the name input: the typed text is stored and the error cleared.\<close>

definition onChangeName :: "jsstring \<Rightarrow> state \<Rightarrow> state" where
  "onChangeName v s = s\<lparr>userName := v, formError := []\<rparr>"

text \<open>
  A join is the text typed into the input followed by the submission of the form at
  time \<open>now\<close>; a leave is a click on the button that calls \<open>handleRemoveFromQueue\<close>.
  A run applies a list of them, first to last. The page shows the buttons only in some
  states; a run here may apply either handler in any state.
\<close>

datatype action = Join jsstring int | Leave

fun step :: "action \<Rightarrow> state \<Rightarrow> state" where
  "step (Join raw now) s = handleNameSubmit now (onChangeName raw s)"
| "step Leave s = handleRemoveFromQueue s"

definition run :: "state \<Rightarrow> action list \<Rightarrow> state" where
  "run s acts = foldl (\<lambda>s a. step a s) s acts"



text \<open>The identity key of a member.\<close>

definition identityKey :: "QueueMember \<Rightarrow> jsstring \<times> jsstring" where
  "identityKey member = (firstName member, lastInitial member)"

text \<open>\<open>ts.join(sep)\<close> for a separator of one code unit, the inverse of \<open>split\<close>.\<close>

fun joinWith :: "int \<Rightarrow> jsstring list \<Rightarrow> jsstring" where
  "joinWith sep [] = []"
| "joinWith sep [t] = t"
| "joinWith sep (t # ts) = t @ sep # joinWith sep ts"

subsection \<open>The parse as the specification words it\<close>

text \<open>
  The specification's \<open>parseName\<close> "splits on whitespace": every white-space
  character separates, and the tokens are the non-empty pieces. The first token is the
  first name; the last initial is the upper-case first character of the last token when
  there is more than one token, else the empty string.
\<close>

fun spec_pieces :: "jsstring \<Rightarrow> jsstring list" where
  "spec_pieces [] = [[]]"
| "spec_pieces (c # cs) =
     (if isWhiteSpace c then [] # spec_pieces cs
      else (case spec_pieces cs of [] \<Rightarrow> [[c]] | t # ts \<Rightarrow> (c # t) # ts))"

definition spec_tokens :: "jsstring \<Rightarrow> jsstring list" where
  "spec_tokens s = filter (\<lambda>t. t \<noteq> []) (spec_pieces s)"

definition spec_parseName :: "jsstring \<Rightarrow> jsstring \<times> jsstring" where
  "spec_parseName raw =
     (let ts = spec_tokens (trim raw)
      in (case ts of [] \<Rightarrow> [] | t # _ \<Rightarrow> t,
          if length ts > 1 then toUpperCase (take 1 (last ts)) else []))"

subsection \<open>Invariants of the list\<close>

text \<open>The ids grow strictly along the list.\<close>

definition idsIncrease :: "QueueMember list \<Rightarrow> bool" where
  "idsIncrease ql = sorted_wrt (\<lambda>a b. id_member a < id_member b) ql"

section \<open>Facts about the library functions\<close>

lemma dropWhile_all_iff: "(\<forall>x\<in>set (dropWhile P xs). P x) \<longleftrightarrow> (\<forall>x\<in>set xs. P x)"
  by (induction xs) auto

lemma trim_Nil_iff: "trim s = [] \<longleftrightarrow> (\<forall>c\<in>set s. isWhiteSpace c)"
proof -
  have "trim s = [] \<longleftrightarrow> (\<forall>c\<in>set (rev (dropWhile isWhiteSpace s)). isWhiteSpace c)"
    by (simp add: trim_def dropWhile_eq_Nil_conv)
  also have "\<dots> \<longleftrightarrow> (\<forall>c\<in>set s. isWhiteSpace c)"
    by (simp add: dropWhile_all_iff)
  finally show ?thesis .
qed

lemma maxId_ge: "m \<in> set ql \<Longrightarrow> id_member m \<le> maxId ql"
  by (induction ql) (auto simp: maxId_def)

lemma maxId_nonneg: "0 \<le> maxId ql"
  by (induction ql) (auto simp: maxId_def)

lemma maxId_Max: "maxId ql = Max (insert 0 (id_member ` set ql))"
proof (induction ql)
  case Nil
  show ?case by (simp add: maxId_def)
next
  case (Cons m ql)
  have "maxId (m # ql) = max (id_member m) (maxId ql)"
    by (simp add: maxId_def)
  also have "\<dots> = max (id_member m) (Max (insert 0 (id_member ` set ql)))"
    by (simp only: Cons.IH)
  also have "\<dots> = Max (insert (id_member m) (insert 0 (id_member ` set ql)))"
    by simp
  also have "\<dots> = Max (insert 0 (id_member ` set (m # ql)))"
    by (simp add: insert_commute)
  finally show ?case .
qed

lemma indexOf_append_new: "x \<notin> set xs \<Longrightarrow> indexOf (xs @ [x]) x = int (length xs)"
  by (induction xs) (auto simp: Let_def)

lemma find_append_new: "\<not> list_ex P xs \<Longrightarrow> P x \<Longrightarrow> find P (xs @ [x]) = Some x"
  by (induction xs) auto

lemma position_append_new:
  assumes "\<not> list_ex (isUser fn li) ql" and "isUser fn li m"
  shows "position fn li (ql @ [m]) = Some (int (length ql) + 1)"
proof -
  from assms have "m \<notin> set ql"
    by (auto simp: list_ex_iff)
  with assms show ?thesis
    by (simp add: position_def find_append_new indexOf_append_new)
qed

lemma position_None_iff: "position fn li ql = None \<longleftrightarrow> \<not> list_ex (isUser fn li) ql"
proof -
  have "position fn li ql = None \<longleftrightarrow> find (isUser fn li) ql = None"
    by (simp add: position_def split: option.splits)
  then show ?thesis
    by (auto simp: find_None_iff list_ex_iff)
qed

lemma remainder_nonneg: "0 \<le> a \<Longrightarrow> remainder a 60 = a mod 60"
  by (simp add: remainder_def)

text \<open>Below U+0080 the upper-case mapping turns a to z into A to Z and nothing else.\<close>

lemma toUppercaseCodePoint_ascii:
  assumes "0 \<le> c" and "c < 0x80"
  shows "toUppercaseCodePoint c = [if 0x61 \<le> c \<and> c \<le> 0x7A then c - 0x20 else c]"
proof -
  have sp: "map_of upperSpecial c = None"
    using assms by (simp add: upperSpecial_def)
  show ?thesis
  proof (cases "0x61 \<le> c \<and> c \<le> 0x7A")
    case True
    then show ?thesis
      by (simp add: toUppercaseCodePoint_def sp upperRanges_def)
  next
    case False
    with assms show ?thesis
      by (simp add: toUppercaseCodePoint_def sp upperRanges_def)
  qed
qed

lemma toUpperCase_ascii:
  assumes "0 \<le> c" and "c < 0x80"
  shows "toUpperCase [c] = [if 0x61 \<le> c \<and> c \<le> 0x7A then c - 0x20 else c]"
  using assms toUppercaseCodePoint_ascii [OF assms]
  by (simp add: toUpperCase_def utf16EncodeCodePoint_def)

section \<open>The claims\<close>

subsection \<open>Rejected submissions\<close>

text \<open>
  C8. When the typed name is empty or holds white space only, that is code units that
  \<open>trim\<close> strips, the submission sets the message \<open>Please enter your name\<close> (the
  page's validation error) and the list of members stays as it was. The witness types a
  space, a no-break space, a tab, an ideographic space and a byte order mark on the seed,
  and then the empty name.
\<close>

theorem blank_name_rejected:
  assumes "\<forall>c\<in>set (userName s). isWhiteSpace c"
  shows "formError (handleNameSubmit now s) = ''Please enter your name''
       \<and> queueList (handleNameSubmit now s) = queueList s"
proof -
  from assms have "trim (userName s) = []"
    by (simp add: trim_Nil_iff)
  then show ?thesis
    by (simp add: handleNameSubmit_def)
qed

theorem blank_name_rejected_witness:
  "list_all isWhiteSpace [0x20, 0xA0, 0x9, 0x3000, 0xFEFF]
   \<and> formError (step (Join [0x20, 0xA0, 0x9, 0x3000, 0xFEFF] 7) (initialState 0))
       = ''Please enter your name''
   \<and> queueList (step (Join [0x20, 0xA0, 0x9, 0x3000, 0xFEFF] 7) (initialState 0))
       = queueList (initialState 0)
   \<and> formError (step (Join [] 7) (initialState 0)) = ''Please enter your name''
   \<and> queueList (step (Join [] 7) (initialState 0)) = queueList (initialState 0)"
proof -
  let ?s = "onChangeName [0x20, 0xA0, 0x9, 0x3000, 0xFEFF] (initialState 0)"
  let ?e = "onChangeName [] (initialState 0)"
  have h: "\<forall>c\<in>set (userName ?s). isWhiteSpace c"
    by (simp add: onChangeName_def isWhiteSpace_def)
  have e: "\<forall>c\<in>set (userName ?e). isWhiteSpace c"
    by (simp add: onChangeName_def)
  have q: "queueList ?s = queueList (initialState 0)" "queueList ?e = queueList (initialState 0)"
    by (simp_all add: onChangeName_def)
  from blank_name_rejected [OF h, of 7] blank_name_rejected [OF e, of 7] q show ?thesis
    by (simp add: isWhiteSpace_def)
qed

text \<open>
  C2. When the trimmed name is not empty and a member of the list has the first name and
  the last initial parsed from it, compared as strings character by character, the
  submission sets the message \<open>You are already in the queue\<close> (the page's duplicate
  error) and the list stays as it was. The witness types \<open>John Doe\<close> on the seed,
  and then a no-break space followed by \<open>John doe\<close>, which is trimmed and upper-cased
  to the same key.
\<close>

theorem duplicate_rejected:
  assumes "trim (userName s) \<noteq> []"
    and "member \<in> set (queueList s)"
    and "firstName member = parsedFirstName (userName s)"
    and "lastInitial member = parsedLastInitial (userName s)"
  shows "formError (handleNameSubmit now s) = ''You are already in the queue''
       \<and> queueList (handleNameSubmit now s) = queueList s"
proof -
  from assms(2-4)
  have "list_ex (isUser (parsedFirstName (userName s)) (parsedLastInitial (userName s))) (queueList s)"
    by (auto simp: list_ex_iff isUser_def)
  with assms(1) show ?thesis
    by (simp add: handleNameSubmit_def)
qed

theorem duplicate_rejected_witness:
  "trim (lit ''John Doe'') \<noteq> []
   \<and> formError (step (Join (lit ''John Doe'') 7) (initialState 0)) = ''You are already in the queue''
   \<and> queueList (step (Join (lit ''John Doe'') 7) (initialState 0)) = queueList (initialState 0)
   \<and> trim (0xA0 # lit ''John doe'') = lit ''John doe''
   \<and> formError (step (Join (0xA0 # lit ''John doe'') 7) (initialState 0))
       = ''You are already in the queue''
   \<and> queueList (step (Join (0xA0 # lit ''John doe'') 7) (initialState 0))
       = queueList (initialState 0)"
proof -
  let ?s = "onChangeName (lit ''John Doe'') (initialState 0)"
  let ?t = "onChangeName (0xA0 # lit ''John doe'') (initialState 0)"
  let ?m = "\<lparr>id_member = 1, firstName = lit ''John'', lastInitial = lit ''D'', joinedTime = 0 - 15 * 60000\<rparr>"
  have u: "userName ?s = lit ''John Doe''" and q: "queueList ?s = queueList (initialState 0)"
    by (simp_all add: onChangeName_def)
  have v: "userName ?t = 0xA0 # lit ''John doe''" and r: "queueList ?t = queueList (initialState 0)"
    by (simp_all add: onChangeName_def)
  have h1: "trim (userName ?s) \<noteq> []"
    unfolding u by code_simp
  have h2: "?m \<in> set (queueList ?s)"
    unfolding q by (simp add: initialState_def lit_def)
  have h3: "firstName ?m = parsedFirstName (userName ?s)"
    unfolding u by code_simp
  have h4: "lastInitial ?m = parsedLastInitial (userName ?s)"
    unfolding u by code_simp
  have tr: "trim (0xA0 # lit ''John doe'') = lit ''John doe''"
    by code_simp
  have k1: "trim (userName ?t) \<noteq> []"
    unfolding v by code_simp
  have k2: "?m \<in> set (queueList ?t)"
    unfolding r by (simp add: initialState_def lit_def)
  have k3: "firstName ?m = parsedFirstName (userName ?t)"
    unfolding v by code_simp
  have k4: "lastInitial ?m = parsedLastInitial (userName ?t)"
    unfolding v by code_simp
  from duplicate_rejected [OF h1 h2 h3 h4, of 7] duplicate_rejected [OF k1 k2 k3 k4, of 7] h1 tr
  show ?thesis
    by (simp add: u q v r)
qed

subsection \<open>The wait estimate\<close>

text \<open>
  C4. For a position of at least 1 the estimate is five minutes per position, printed as
  the minutes alone below an hour and as whole hours and the remaining minutes from an
  hour on. The witness evaluates positions 1, 12 and 13.
\<close>

theorem wait_time_format:
  assumes "0 < p"
  shows "calculateEstimatedWaitTime p =
     (if p * 5 < 60 then numberToString (p * 5) @ ''m''
      else numberToString (p * 5 div 60) @ ''h '' @
           numberToString (p * 5 mod 60) @ ''m'')"
proof (cases "p * 5 < 60")
  case True
  with assms have "p * 5 div 60 = 0" and "p * 5 mod 60 = p * 5"
    by simp_all
  with assms True show ?thesis
    by (simp add: calculateEstimatedWaitTime_def remainder_nonneg)
next
  case False
  then have "0 < p * 5 div 60"
    by (simp add: pos_imp_zdiv_pos_iff)
  with assms False show ?thesis
    by (simp add: calculateEstimatedWaitTime_def remainder_nonneg)
qed

theorem wait_time_format_witness:
  "(0::int) < 1 \<and> calculateEstimatedWaitTime 1 = ''5m''
   \<and> (0::int) < 12 \<and> calculateEstimatedWaitTime 12 = ''1h 0m''
   \<and> (0::int) < 13 \<and> calculateEstimatedWaitTime 13 = ''1h 5m''"
proof -
  have a: "numberToString (1 * 5) @ ''m'' = ''5m''"
    by code_simp
  have b: "numberToString (12 * 5 div 60) @ ''h '' @ numberToString (12 * 5 mod 60) @ ''m'' = ''1h 0m''"
    by code_simp
  have c: "numberToString (13 * 5 div 60) @ ''h '' @ numberToString (13 * 5 mod 60) @ ''m'' = ''1h 5m''"
    by code_simp
  have "calculateEstimatedWaitTime 1 = ''5m''"
    using wait_time_format [of 1] a by simp
  moreover have "calculateEstimatedWaitTime 12 = ''1h 0m''"
    using wait_time_format [of 12] b by simp
  moreover have "calculateEstimatedWaitTime 13 = ''1h 5m''"
    using wait_time_format [of 13] c by simp
  ultimately show ?thesis by simp
qed

subsection \<open>A successful join\<close>

lemma list_ex_isUser_iff:
  "list_ex (isUser fn li) ql \<longleftrightarrow> (fn, li) \<in> set (map identityKey ql)"
  by (auto simp: list_ex_iff isUser_def identityKey_def)

text \<open>
  C1. When the trimmed name is not empty and no member has the parsed identity key, the
  submission appends one member at the end of the list: its id is the greatest id in the
  list (or 0 for an empty list) plus one, its names are the parsed ones and its
  \<open>joinedTime\<close> is the time of the submission. The position of the parsed key in the
  new list, and the position the page shows for the user, is the new length of the list.
  The witness types \<open>Alice Brown\<close> on the seed: id 4, position 4, estimate \<open>20m\<close>;
  and a no-break space, \<open>Zoe\<close>, a space, U+00E9 and \<open>mile\<close>: the member
  \<open>Zoe\<close> with the last initial U+00C9, id 4, position 4.
\<close>

theorem join_appends:
  assumes "trim (userName s) \<noteq> []"
    and "(parsedFirstName (userName s), parsedLastInitial (userName s))
           \<notin> set (map identityKey (queueList s))"
  shows "queueList (handleNameSubmit now s) =
           queueList s @
             [\<lparr>id_member = Max (insert 0 (id_member ` set (queueList s))) + 1,
               firstName = parsedFirstName (userName s),
               lastInitial = parsedLastInitial (userName s),
               joinedTime = now\<rparr>]
       \<and> position (parsedFirstName (userName s)) (parsedLastInitial (userName s))
             (queueList (handleNameSubmit now s))
           = Some (int (length (queueList (handleNameSubmit now s))))
       \<and> userPosition (handleNameSubmit now s)
           = Some (int (length (queueList (handleNameSubmit now s))))"
proof -
  let ?fn = "parsedFirstName (userName s)" and ?li = "parsedLastInitial (userName s)"
  let ?m = "\<lparr>id_member = maxId (queueList s) + 1, firstName = ?fn, lastInitial = ?li,
             joinedTime = now\<rparr>"
  from assms(2) have absent: "\<not> list_ex (isUser ?fn ?li) (queueList s)"
    by (simp only: list_ex_isUser_iff not_False_eq_True)
  with assms(1) have s': "handleNameSubmit now s =
      s\<lparr>userFirstName := ?fn, userLastInitial := ?li, queueList := queueList s @ [?m],
         isInQueue := True, userName := [], formError := [], showAddForm := False\<rparr>"
    by (simp add: handleNameSubmit_def Let_def)
  have m: "isUser ?fn ?li ?m"
    by (simp add: isUser_def)
  have pos: "position ?fn ?li (queueList s @ [?m]) = Some (int (length (queueList s)) + 1)"
    using absent m by (rule position_append_new)
  from pos show ?thesis
    by (simp add: s' userPosition_def maxId_Max)
qed

theorem join_appends_witness:
  "trim (lit ''Alice Brown'') \<noteq> []
   \<and> queueList (step (Join (lit ''Alice Brown'') 7) (initialState 0)) =
       queueList (initialState 0) @
         [\<lparr>id_member = 4, firstName = lit ''Alice'', lastInitial = lit ''B'', joinedTime = 7\<rparr>]
   \<and> userPosition (step (Join (lit ''Alice Brown'') 7) (initialState 0)) = Some 4
   \<and> calculateEstimatedWaitTime 4 = ''20m''
   \<and> queueList (step (Join (0xA0 # lit ''Zoe '' @ 0xE9 # lit ''mile'') 7) (initialState 0)) =
       queueList (initialState 0) @
         [\<lparr>id_member = 4, firstName = lit ''Zoe'', lastInitial = [0xC9], joinedTime = 7\<rparr>]
   \<and> userPosition (step (Join (0xA0 # lit ''Zoe '' @ 0xE9 # lit ''mile'') 7) (initialState 0))
       = Some 4"
proof -
  let ?s = "onChangeName (lit ''Alice Brown'') (initialState 0)"
  let ?zoe = "0xA0 # lit ''Zoe '' @ 0xE9 # lit ''mile''"
  let ?t = "onChangeName ?zoe (initialState 0)"
  have u: "userName ?s = lit ''Alice Brown''" and q: "queueList ?s = queueList (initialState 0)"
    by (simp_all add: onChangeName_def)
  have v: "userName ?t = ?zoe" and r: "queueList ?t = queueList (initialState 0)"
    by (simp_all add: onChangeName_def)
  have fn: "parsedFirstName (lit ''Alice Brown'') = lit ''Alice''"
    by code_simp
  have li: "parsedLastInitial (lit ''Alice Brown'') = lit ''B''"
    by code_simp
  have zfn: "parsedFirstName ?zoe = lit ''Zoe''"
    by code_simp
  have zli: "parsedLastInitial ?zoe = [0xC9]"
    by code_simp
  have h1: "trim (userName ?s) \<noteq> []"
    unfolding u by code_simp
  have h2: "(parsedFirstName (userName ?s), parsedLastInitial (userName ?s))
              \<notin> set (map identityKey (queueList ?s))"
    unfolding u q fn li by (simp add: initialState_def lit_def identityKey_def)
  have k1: "trim (userName ?t) \<noteq> []"
    unfolding v by code_simp
  have k2: "(parsedFirstName (userName ?t), parsedLastInitial (userName ?t))
              \<notin> set (map identityKey (queueList ?t))"
    unfolding v r zfn zli by (simp add: initialState_def lit_def identityKey_def)
  have w: "calculateEstimatedWaitTime 4 = ''20m''"
    by code_simp
  have l: "length (queueList (initialState 0)) = 3"
    and ids: "id_member ` set (queueList (initialState 0)) = {1, 2, 3}"
    by (simp_all add: initialState_def lit_def)
  have a: "queueList (step (Join (lit ''Alice Brown'') 7) (initialState 0)) =
       queueList (initialState 0) @
         [\<lparr>id_member = 4, firstName = lit ''Alice'', lastInitial = lit ''B'', joinedTime = 7\<rparr>]
     \<and> userPosition (step (Join (lit ''Alice Brown'') 7) (initialState 0)) = Some 4"
    using join_appends [OF h1 h2, of 7] by (simp add: u q fn li l ids)
  have b: "queueList (step (Join ?zoe 7) (initialState 0)) =
       queueList (initialState 0) @
         [\<lparr>id_member = 4, firstName = lit ''Zoe'', lastInitial = [0xC9], joinedTime = 7\<rparr>]
     \<and> userPosition (step (Join ?zoe 7) (initialState 0)) = Some 4"
    using join_appends [OF k1 k2, of 7] by (simp add: v r zfn zli l ids)
  from a b h1 w show ?thesis
    unfolding u by simp
qed

subsection \<open>Leaving when the key is absent\<close>

text \<open>
  C9. When no member has the identity key of the current user, \<open>handleRemoveFromQueue\<close>
  leaves the list as it was and sets no error message: the filter keeps every member.
\<close>

theorem leave_absent_unchanged:
  assumes "(userFirstName s, userLastInitial s) \<notin> set (map identityKey (queueList s))"
  shows "queueList (handleRemoveFromQueue s) = queueList s
       \<and> formError (handleRemoveFromQueue s) = formError s"
proof -
  from assms have "\<not> list_ex (isUser (userFirstName s) (userLastInitial s)) (queueList s)"
    by (simp only: list_ex_isUser_iff not_False_eq_True)
  then have "\<forall>member\<in>set (queueList s).
      \<not> isUser (userFirstName s) (userLastInitial s) member"
    by (simp add: list_ex_iff)
  then have "filter (\<lambda>member. \<not> isUser (userFirstName s) (userLastInitial s) member)
      (queueList s) = queueList s"
    by (simp add: filter_id_conv)
  then show ?thesis
    by (simp add: handleRemoveFromQueue_def)
qed

theorem leave_absent_unchanged_witness:
  "(lit ''Zed'', lit ''Q'') \<notin> set (map identityKey (queueList (initialState 0)))
   \<and> queueList (handleRemoveFromQueue
        ((initialState 0)\<lparr>userFirstName := lit ''Zed'', userLastInitial := lit ''Q''\<rparr>))
       = queueList (initialState 0)
   \<and> formError (handleRemoveFromQueue
        ((initialState 0)\<lparr>userFirstName := lit ''Zed'', userLastInitial := lit ''Q''\<rparr>)) = []"
proof -
  let ?s = "(initialState 0)\<lparr>userFirstName := lit ''Zed'', userLastInitial := lit ''Q''\<rparr>"
  have h: "(userFirstName ?s, userLastInitial ?s) \<notin> set (map identityKey (queueList ?s))"
    by (simp add: initialState_def lit_def identityKey_def)
  from leave_absent_unchanged [OF h] h show ?thesis
    by (simp add: initialState_def lit_def)
qed

text \<open>
  C6 says that leaving with an absent key fails with a not-found error. The page reports
  an error by a message in \<open>formError\<close>, and \<open>handleRemoveFromQueue\<close> has no such
  branch. In the initial state the key of the current user is the pair of empty strings,
  which no seed member has: the handler returns the initial state itself, with an empty
  \<open>formError\<close>.
\<close>

theorem leave_absent_no_error_counterexample:
  "userPosition (initialState 0) = None
   \<and> formError (handleRemoveFromQueue (initialState 0)) = []
   \<and> handleRemoveFromQueue (initialState 0) = initialState 0"
  by (simp add: userPosition_def position_def isUser_def initialState_def lit_def
      handleRemoveFromQueue_def)

text \<open>
  C6 as amended: when the position of the current user's key is \<open>null\<close>, the handler
  reports nothing. Its whole effect is to clear the key of the current user and the
  \<open>isInQueue\<close> flag; the list and the error message are those of the state before.
\<close>

theorem leave_absent_no_error:
  assumes "position (userFirstName s) (userLastInitial s) (queueList s) = None"
  shows "handleRemoveFromQueue s =
           s\<lparr>isInQueue := False, userFirstName := [], userLastInitial := []\<rparr>"
proof -
  from assms have "\<forall>member\<in>set (queueList s).
      \<not> isUser (userFirstName s) (userLastInitial s) member"
    by (simp add: position_None_iff list_ex_iff)
  then have "filter (\<lambda>member. \<not> isUser (userFirstName s) (userLastInitial s) member)
      (queueList s) = queueList s"
    by (simp add: filter_id_conv)
  then show ?thesis
    by (simp add: handleRemoveFromQueue_def)
qed

theorem leave_absent_no_error_witness:
  "position [] [] (queueList (initialState 0)) = None
   \<and> formError (handleRemoveFromQueue (initialState 0)) = []"
proof -
  have h: "position (userFirstName (initialState 0)) (userLastInitial (initialState 0))
             (queueList (initialState 0)) = None"
    by (simp add: position_def isUser_def initialState_def lit_def)
  from leave_absent_no_error [OF h] h show ?thesis
    by (simp add: initialState_def lit_def)
qed

subsection \<open>Leaving when the key is present\<close>

lemma isUser_identityKey: "isUser fn li member \<longleftrightarrow> identityKey member = (fn, li)"
  by (auto simp: isUser_def identityKey_def)

text \<open>
  C7. In a state whose members have pairwise different identity keys and where some
  member has the key of the current user, \<open>handleRemoveFromQueue\<close> takes exactly that
  member out: the members before it and after it stay, in their order, the list is one
  shorter, and the position of that key in the new list is \<open>null\<close>.
\<close>

theorem leave_removes_one:
  assumes "distinct (map identityKey (queueList s))"
    and "(userFirstName s, userLastInitial s) \<in> set (map identityKey (queueList s))"
  shows "(\<exists>xs member ys.
            queueList s = xs @ member # ys
          \<and> identityKey member = (userFirstName s, userLastInitial s)
          \<and> queueList (handleRemoveFromQueue s) = xs @ ys)
       \<and> length (queueList (handleRemoveFromQueue s)) + 1 = length (queueList s)
       \<and> position (userFirstName s) (userLastInitial s)
            (queueList (handleRemoveFromQueue s)) = None"
proof -
  let ?k = "(userFirstName s, userLastInitial s)"
  let ?keep = "\<lambda>member. \<not> isUser (userFirstName s) (userLastInitial s) member"
  from assms(2) obtain member where "member \<in> set (queueList s)" and k: "identityKey member = ?k"
    by auto
  then obtain xs ys where ql: "queueList s = xs @ member # ys"
    by (auto simp: in_set_conv_decomp)
  from assms(1) have "?k \<notin> identityKey ` set xs" and "?k \<notin> identityKey ` set ys"
    unfolding ql using k by auto
  then have "\<forall>x\<in>set xs. ?keep x" and "\<forall>y\<in>set ys. ?keep y"
    by (auto simp: isUser_identityKey image_iff)
  then have "filter ?keep xs = xs" and "filter ?keep ys = ys"
    by (simp_all add: filter_id_conv)
  moreover have "\<not> ?keep member"
    using k by (simp add: isUser_identityKey)
  ultimately have f: "filter ?keep (queueList s) = xs @ ys"
    by (simp add: ql)
  then have q': "queueList (handleRemoveFromQueue s) = xs @ ys"
    by (simp add: handleRemoveFromQueue_def)
  have "\<not> list_ex (isUser (userFirstName s) (userLastInitial s)) (filter ?keep (queueList s))"
    by (simp add: list_ex_iff)
  then have "position (userFirstName s) (userLastInitial s) (xs @ ys) = None"
    by (simp add: position_None_iff f)
  with ql k q' show ?thesis
    by auto
qed

theorem leave_removes_one_witness:
  "distinct (map identityKey (queueList (initialState 0)))
   \<and> queueList (handleRemoveFromQueue
        ((initialState 0)\<lparr>userFirstName := lit ''Jane'', userLastInitial := lit ''S''\<rparr>))
       = [\<lparr>id_member = 1, firstName = lit ''John'', lastInitial = lit ''D'', joinedTime = - 900000\<rparr>,
          \<lparr>id_member = 3, firstName = lit ''Mike'', lastInitial = lit ''J'', joinedTime = - 300000\<rparr>]
   \<and> position (lit ''Jane'') (lit ''S'') (queueList (handleRemoveFromQueue
        ((initialState 0)\<lparr>userFirstName := lit ''Jane'', userLastInitial := lit ''S''\<rparr>))) = None"
proof -
  let ?s = "(initialState 0)\<lparr>userFirstName := lit ''Jane'', userLastInitial := lit ''S''\<rparr>"
  have h1: "distinct (map identityKey (queueList ?s))"
    by (simp add: initialState_def lit_def identityKey_def)
  have h2: "(userFirstName ?s, userLastInitial ?s) \<in> set (map identityKey (queueList ?s))"
    by (simp add: initialState_def lit_def identityKey_def)
  have q: "queueList (handleRemoveFromQueue ?s)
       = [\<lparr>id_member = 1, firstName = lit ''John'', lastInitial = lit ''D'', joinedTime = - 900000\<rparr>,
          \<lparr>id_member = 3, firstName = lit ''Mike'', lastInitial = lit ''J'', joinedTime = - 300000\<rparr>]"
    by (simp add: handleRemoveFromQueue_def initialState_def lit_def isUser_def)
  from leave_removes_one [OF h1 h2] h1 q show ?thesis
    by simp
qed

subsection \<open>Ids along a run\<close>

lemma handleNameSubmit_queueList:
  "queueList (handleNameSubmit now s) = queueList s
   \<or> queueList (handleNameSubmit now s) =
       queueList s @ [\<lparr>id_member = maxId (queueList s) + 1,
                        firstName = parsedFirstName (userName s),
                        lastInitial = parsedLastInitial (userName s), joinedTime = now\<rparr>]
     \<and> \<not> list_ex (isUser (parsedFirstName (userName s)) (parsedLastInitial (userName s)))
           (queueList s)"
  by (simp add: handleNameSubmit_def Let_def)

lemma idsIncrease_append:
  "idsIncrease ql \<Longrightarrow> idsIncrease (ql @ [m\<lparr>id_member := maxId ql + 1\<rparr>])"
  by (auto simp: idsIncrease_def sorted_wrt_append dest: maxId_ge)

lemma step_idsIncrease:
  assumes "idsIncrease (queueList s)"
  shows "idsIncrease (queueList (step a s))"
proof (cases a)
  case (Join raw now)
  have "queueList (onChangeName raw s) = queueList s"
    by (simp add: onChangeName_def)
  with handleNameSubmit_queueList [of now "onChangeName raw s"] assms Join
  show ?thesis
    using idsIncrease_append [of "queueList s"
        "\<lparr>id_member = 0, firstName = parsedFirstName raw,
          lastInitial = parsedLastInitial raw, joinedTime = now\<rparr>"]
    by (auto simp: onChangeName_def)
next
  case Leave
  with assms show ?thesis
    by (simp add: handleRemoveFromQueue_def idsIncrease_def sorted_wrt_filter)
qed

lemma run_idsIncrease:
  "idsIncrease (queueList s) \<Longrightarrow> idsIncrease (queueList (run s acts))"
  unfolding run_def
  by (induction acts arbitrary: s) (simp_all add: step_idsIncrease)

lemma initial_idsIncrease: "idsIncrease (queueList (initialState t0))"
  by (simp add: initialState_def lit_def idsIncrease_def)

text \<open>
  C10. After any run of joins and leaves from the seed, the ids of the members in the
  list are pairwise distinct: a new id is greater than every id in the list, so the ids
  grow strictly along the list, and a removal keeps that.
\<close>

theorem present_ids_distinct:
  "distinct (map id_member (queueList (run (initialState t0) acts)))"
proof -
  have "idsIncrease (queueList (run (initialState t0) acts))"
    by (rule run_idsIncrease [OF initial_idsIncrease])
  then have "sorted_wrt (<) (map id_member (queueList (run (initialState t0) acts)))"
    by (simp add: idsIncrease_def sorted_wrt_map)
  then show ?thesis
    by (simp add: strict_sorted_iff)
qed

theorem present_ids_distinct_witness:
  "distinct (map id_member (queueList (run (initialState 0)
      [Join (lit ''Alice Brown'') 1, Leave, Join (lit ''Bob Stone'') 2])))
   \<and> map id_member (queueList (run (initialState 0)
      [Join (lit ''Alice Brown'') 1, Leave, Join (lit ''Bob Stone'') 2])) = [1, 2, 3, 4]"
proof -
  have "map id_member (queueList (run (initialState 0)
      [Join (lit ''Alice Brown'') 1, Leave, Join (lit ''Bob Stone'') 2])) = [1, 2, 3, 4]"
    by code_simp
  with present_ids_distinct [of 0 "[Join (lit ''Alice Brown'') 1, Leave, Join (lit ''Bob Stone'') 2]"]
  show ?thesis
    by simp
qed




subsection \<open>The parse of the name\<close>

lemma split_not_Nil: "split s sep \<noteq> []"
  by (induction s) (auto split: list.splits)

lemma joinWith_Cons: "ts \<noteq> [] \<Longrightarrow> joinWith sep (t # ts) = t @ sep # joinWith sep ts"
  by (cases ts) simp_all

lemma joinWith_Cons_hd:
  "joinWith sep ((c # t) # ts) = c # joinWith sep (t # ts)"
  by (cases ts) simp_all

lemma joinWith_split: "joinWith sep (split s sep) = s"
proof (induction s)
  case Nil
  show ?case by simp
next
  case (Cons c cs)
  show ?case
  proof (cases "c = sep")
    case True
    with Cons show ?thesis
      by (simp add: joinWith_Cons split_not_Nil)
  next
    case False
    obtain t ts where ts: "split cs sep = t # ts"
      using split_not_Nil [of cs sep] by (cases "split cs sep") auto
    with Cons False show ?thesis
      by (simp add: joinWith_Cons_hd)
  qed
qed

lemma split_no_sep: "t \<in> set (split s sep) \<Longrightarrow> sep \<notin> set t"
proof (induction s arbitrary: t)
  case Nil
  then show ?case by simp
next
  case (Cons c cs)
  obtain u us where us: "split cs sep = u # us"
    using split_not_Nil [of cs sep] by (cases "split cs sep") auto
  with Cons show ?case
    by (auto split: if_splits)
qed

lemma hd_split: "hd (split s sep) = takeWhile (\<lambda>c. c \<noteq> sep) s"
  by (induction s) (auto split: list.splits simp: split_not_Nil)

lemma length_split: "length (split s sep) = Suc (length (filter (\<lambda>c. c = sep) s))"
  by (induction s) (auto split: list.splits simp: split_not_Nil)

lemma last_split_nonempty: "s \<noteq> [] \<Longrightarrow> last s \<noteq> sep \<Longrightarrow> last (split s sep) \<noteq> []"
proof (induction s)
  case Nil
  then show ?case by simp
next
  case (Cons c cs)
  obtain u us where us: "split cs sep = u # us"
    using split_not_Nil [of cs sep] by (cases "split cs sep") auto
  show ?case
  proof (cases "cs = []")
    case True
    with Cons.prems show ?thesis by simp
  next
    case False
    with Cons have "last (split cs sep) \<noteq> []"
      by simp
    with us False show ?thesis
      by (auto split: if_splits)
  qed
qed

lemma hd_dropWhile_not: "dropWhile P xs \<noteq> [] \<Longrightarrow> \<not> P (hd (dropWhile P xs))"
  by (simp add: hd_dropWhile)

lemma last_dropWhile: "dropWhile P xs \<noteq> [] \<Longrightarrow> last (dropWhile P xs) = last xs"
  by (induction xs) (auto split: if_splits)

lemma trim_ends:
  assumes "trim s \<noteq> []"
  shows "\<not> isWhiteSpace (hd (trim s))" and "\<not> isWhiteSpace (last (trim s))"
proof -
  let ?d = "dropWhile isWhiteSpace s"
  let ?e = "dropWhile isWhiteSpace (rev ?d)"
  from assms have e: "?e \<noteq> []"
    by (simp add: trim_def)
  have d: "?d \<noteq> []"
  proof
    assume "?d = []"
    then have "?e = []"
      by (simp only: rev.simps dropWhile.simps)
    with e show False ..
  qed
  have "hd (trim s) = last ?e"
    using e by (simp add: trim_def hd_rev)
  also have "\<dots> = last (rev ?d)"
    using e by (rule last_dropWhile)
  also have "\<dots> = hd ?d"
    using d by (simp add: last_rev)
  finally show "\<not> isWhiteSpace (hd (trim s))"
    using d by (simp add: hd_dropWhile)
  have "last (trim s) = hd ?e"
    using e by (simp add: trim_def last_rev)
  then show "\<not> isWhiteSpace (last (trim s))"
    using e by (simp add: hd_dropWhile)
qed

lemma space_isWhiteSpace: "isWhiteSpace 0x20"
  by (simp add: isWhiteSpace_def)

lemma charAt_0: "charAt t 0 = take 1 t"
  by (cases t) (simp_all add: charAt_def)

lemma nameParts_first_nonempty:
  assumes "trim raw \<noteq> []"
  shows "parsedFirstName raw \<noteq> []"
proof -
  from assms trim_ends(1) [OF assms] have "hd (trim raw) \<noteq> 0x20"
    using space_isWhiteSpace by auto
  with assms have "takeWhile (\<lambda>c. c \<noteq> 0x20) (trim raw) \<noteq> []"
    by (cases "trim raw") auto
  then have "hd (nameParts raw) \<noteq> []"
    by (simp add: nameParts_def hd_split)
  moreover have "nameParts raw \<noteq> []"
    by (simp add: nameParts_def split_not_Nil)
  ultimately show ?thesis
    by (cases "nameParts raw") (simp_all add: parsedFirstName_def)
qed

lemma nameParts_not_Nil: "nameParts raw \<noteq> []"
  by (simp add: nameParts_def split_not_Nil)

lemma parsedFirstName_hd: "parsedFirstName raw = hd (nameParts raw)"
  using nameParts_not_Nil [of raw] by (cases "nameParts raw") (simp_all add: parsedFirstName_def)

lemma parsedLastInitial_last:
  "parsedLastInitial raw =
     (if 1 < length (nameParts raw) then toUpperCase (take 1 (last (nameParts raw))) else [])"
  using nameParts_not_Nil [of raw]
  by (simp add: parsedLastInitial_def charAt_0 last_conv_nth)

lemma nameParts_last_nonempty:
  assumes "trim raw \<noteq> []"
  shows "last (nameParts raw) \<noteq> []"
proof -
  from trim_ends(2) [OF assms] have "last (trim raw) \<noteq> 0x20"
    using space_isWhiteSpace by auto
  with assms show ?thesis
    unfolding nameParts_def by (rule last_split_nonempty)
qed

text \<open>
  C3 says that the parse splits on white space. The handler calls \<open>split(' ')\<close>, which
  cuts at the space character only. For \<open>John\<close>, a tab and \<open>Doe\<close> the trimmed name
  is one piece: the first name is the whole text and the last initial is empty, where a
  split on white space gives \<open>John\<close> and \<open>D\<close>.
\<close>

theorem tab_not_split_counterexample:
  "trim (lit ''John'' @ [0x9] @ lit ''Doe'') \<noteq> []
   \<and> parsedFirstName (lit ''John'' @ [0x9] @ lit ''Doe'') = lit ''John'' @ [0x9] @ lit ''Doe''
   \<and> parsedLastInitial (lit ''John'' @ [0x9] @ lit ''Doe'') = []
   \<and> spec_parseName (lit ''John'' @ [0x9] @ lit ''Doe'') = (lit ''John'', lit ''D'')
   \<and> (parsedFirstName (lit ''John'' @ [0x9] @ lit ''Doe''),
       parsedLastInitial (lit ''John'' @ [0x9] @ lit ''Doe''))
      \<noteq> spec_parseName (lit ''John'' @ [0x9] @ lit ''Doe'')"
proof -
  have a: "trim (lit ''John'' @ [0x9] @ lit ''Doe'') \<noteq> []"
    by code_simp
  have b: "parsedFirstName (lit ''John'' @ [0x9] @ lit ''Doe'') = lit ''John'' @ [0x9] @ lit ''Doe''"
    by code_simp
  have c: "parsedLastInitial (lit ''John'' @ [0x9] @ lit ''Doe'') = []"
    by code_simp
  have d: "spec_parseName (lit ''John'' @ [0x9] @ lit ''Doe'') = (lit ''John'', lit ''D'')"
    by code_simp
  show ?thesis
    unfolding b c d using a by simp
qed

text \<open>
  C3 as amended: for a name whose trimmed value is not empty, the pieces are those between
  the space characters of the trimmed value (joined by single spaces they give it back,
  and no piece holds a space; other white space does not cut). The first name is the
  first piece, which is not empty. The last piece is not empty either, and the last
  initial is \<open>toUpperCase\<close> of its first code unit when there is more than one piece,
  else the empty string. Unless a member already has that key, the submission stores the
  two as the key of the current user and of the member it appends. The witness types
  three names on the seed: \<open>Madonna\<close>, with the key \<open>Madonna\<close> and the empty
  string; \<open>john  doe\<close> with spaces around and two spaces inside, with the pieces
  \<open>john\<close>, the empty string and \<open>doe\<close> and the key \<open>john\<close> and \<open>D\<close>; and
  a no-break space, \<open>Zoe\<close>, a space, U+00E9 and \<open>mile\<close>, with the key \<open>Zoe\<close>
  and U+00C9.
\<close>

theorem name_parse_splits_at_spaces:
  assumes "trim raw \<noteq> []"
  shows "joinWith 0x20 (nameParts raw) = trim raw
       \<and> (\<forall>t\<in>set (nameParts raw). 0x20 \<notin> set t)
       \<and> nameParts raw \<noteq> []
       \<and> parsedFirstName raw = hd (nameParts raw)
       \<and> parsedFirstName raw \<noteq> []
       \<and> last (nameParts raw) \<noteq> []
       \<and> parsedLastInitial raw =
           (if 1 < length (nameParts raw) then toUpperCase (take 1 (last (nameParts raw)))
            else [])
       \<and> (list_ex (isUser (parsedFirstName raw) (parsedLastInitial raw)) (queueList s)
          \<or> userFirstName (step (Join raw now) s) = parsedFirstName raw
            \<and> userLastInitial (step (Join raw now) s) = parsedLastInitial raw
            \<and> identityKey (last (queueList (step (Join raw now) s)))
                = (parsedFirstName raw, parsedLastInitial raw))"
proof -
  have "joinWith 0x20 (nameParts raw) = trim raw"
    by (simp add: nameParts_def joinWith_split)
  moreover have "\<forall>t\<in>set (nameParts raw). 0x20 \<notin> set t"
    by (auto simp: nameParts_def dest: split_no_sep)
  moreover have "list_ex (isUser (parsedFirstName raw) (parsedLastInitial raw)) (queueList s)
          \<or> userFirstName (step (Join raw now) s) = parsedFirstName raw
            \<and> userLastInitial (step (Join raw now) s) = parsedLastInitial raw
            \<and> identityKey (last (queueList (step (Join raw now) s)))
                = (parsedFirstName raw, parsedLastInitial raw)"
    using assms
    by (simp add: handleNameSubmit_def onChangeName_def Let_def identityKey_def)
  ultimately show ?thesis
    using nameParts_not_Nil [of raw] parsedFirstName_hd [of raw]
      nameParts_first_nonempty [OF assms] nameParts_last_nonempty [OF assms]
      parsedLastInitial_last [of raw]
    by (intro conjI) assumption+
qed

theorem name_parse_splits_at_spaces_witness:
  "trim (lit ''Madonna'') \<noteq> []
   \<and> nameParts (lit ''Madonna'') = [lit ''Madonna'']
   \<and> parsedFirstName (lit ''Madonna'') = lit ''Madonna''
   \<and> parsedLastInitial (lit ''Madonna'') = []
   \<and> userFirstName (step (Join (lit ''Madonna'') 7) (initialState 0)) = lit ''Madonna''
   \<and> userLastInitial (step (Join (lit ''Madonna'') 7) (initialState 0)) = []
   \<and> identityKey (last (queueList (step (Join (lit ''Madonna'') 7) (initialState 0))))
       = (lit ''Madonna'', [])
   \<and> nameParts (lit '' john  doe '') = [lit ''john'', [], lit ''doe'']
   \<and> identityKey (last (queueList (step (Join (lit '' john  doe '') 7) (initialState 0))))
       = (lit ''john'', lit ''D'')
   \<and> nameParts (0xA0 # lit ''Zoe '' @ 0xE9 # lit ''mile'') = [lit ''Zoe'', 0xE9 # lit ''mile'']
   \<and> toUpperCase [0xE9] = [0xC9]
   \<and> userFirstName (step (Join (0xA0 # lit ''Zoe '' @ 0xE9 # lit ''mile'') 7) (initialState 0))
       = lit ''Zoe''
   \<and> userLastInitial (step (Join (0xA0 # lit ''Zoe '' @ 0xE9 # lit ''mile'') 7) (initialState 0))
       = [0xC9]"
proof -
  let ?john = "lit '' john  doe ''"
  let ?zoe = "0xA0 # lit ''Zoe '' @ 0xE9 # lit ''mile''"
  have h: "trim (lit ''Madonna'') \<noteq> []"
    by code_simp
  have np: "nameParts (lit ''Madonna'') = [lit ''Madonna'']"
    by code_simp
  have absent: "\<not> list_ex (isUser (lit ''Madonna'') []) (queueList (initialState 0))"
    by (simp add: initialState_def lit_def isUser_def)
  have fn: "parsedFirstName (lit ''Madonna'') = lit ''Madonna''"
    by code_simp
  have li: "parsedLastInitial (lit ''Madonna'') = []"
    by code_simp
  have a: "nameParts (lit ''Madonna'') = [lit ''Madonna'']
      \<and> parsedFirstName (lit ''Madonna'') = lit ''Madonna''
      \<and> parsedLastInitial (lit ''Madonna'') = []
      \<and> userFirstName (step (Join (lit ''Madonna'') 7) (initialState 0)) = lit ''Madonna''
      \<and> userLastInitial (step (Join (lit ''Madonna'') 7) (initialState 0)) = []
      \<and> identityKey (last (queueList (step (Join (lit ''Madonna'') 7) (initialState 0))))
          = (lit ''Madonna'', [])"
    using name_parse_splits_at_spaces [OF h, of "initialState 0" 7] absent
    by (simp add: np fn li)
  have jh: "trim ?john \<noteq> []"
    by code_simp
  have jnp: "nameParts ?john = [lit ''john'', [], lit ''doe'']"
    by code_simp
  have jup: "toUpperCase (take (Suc 0) (lit ''doe'')) = lit ''D''"
    by code_simp
  have jfn: "parsedFirstName ?john = lit ''john''"
    using name_parse_splits_at_spaces [OF jh, of "initialState 0" 7] by (simp add: jnp)
  have jli: "parsedLastInitial ?john = lit ''D''"
    using name_parse_splits_at_spaces [OF jh, of "initialState 0" 7] by (simp add: jnp jup)
  have jabsent: "\<not> list_ex (isUser (lit ''john'') (lit ''D'')) (queueList (initialState 0))"
    by (simp add: initialState_def lit_def isUser_def)
  have b: "identityKey (last (queueList (step (Join ?john 7) (initialState 0))))
      = (lit ''john'', lit ''D'')"
    using name_parse_splits_at_spaces [OF jh, of "initialState 0" 7] jabsent
    by (simp add: jfn jli)
  have zh: "trim ?zoe \<noteq> []"
    by code_simp
  have znp: "nameParts ?zoe = [lit ''Zoe'', 0xE9 # lit ''mile'']"
    by code_simp
  have zup: "toUpperCase [0xE9] = [0xC9]"
    by code_simp
  have zfn: "parsedFirstName ?zoe = lit ''Zoe''"
    using name_parse_splits_at_spaces [OF zh, of "initialState 0" 7] by (simp add: znp)
  have zli: "parsedLastInitial ?zoe = [0xC9]"
    using name_parse_splits_at_spaces [OF zh, of "initialState 0" 7] by (simp add: znp zup)
  have zabsent: "\<not> list_ex (isUser (lit ''Zoe'') [0xC9]) (queueList (initialState 0))"
    by (simp add: initialState_def lit_def isUser_def)
  have c: "userFirstName (step (Join ?zoe 7) (initialState 0)) = lit ''Zoe''
      \<and> userLastInitial (step (Join ?zoe 7) (initialState 0)) = [0xC9]"
    using name_parse_splits_at_spaces [OF zh, of "initialState 0" 7] zabsent
    by (simp add: zfn zli)
  from h a b c jnp znp zup show ?thesis
    by simp
qed

text \<open>
  Where the only white space inside the trimmed name is the space character, the parse
  of the handler is the parse of the specification.
\<close>

lemma last_filter_keep: "xs \<noteq> [] \<Longrightarrow> P (last xs) \<Longrightarrow> last (filter P xs) = last xs"
proof (induction xs)
  case Nil
  then show ?case by simp
next
  case (Cons x xs)
  show ?case
  proof (cases "xs = []")
    case True
    with Cons.prems show ?thesis by simp
  next
    case False
    with Cons have IH: "last (filter P xs) = last xs" and "P (last xs)"
      by simp_all
    with False have "last xs \<in> set (filter P xs)"
      by simp
    then have "filter P xs \<noteq> []"
      by (cases "filter P xs") simp_all
    with False IH show ?thesis
      by simp
  qed
qed

lemma spec_pieces_split:
  "\<forall>c\<in>set s. isWhiteSpace c \<longrightarrow> c = 0x20 \<Longrightarrow> spec_pieces s = split s 0x20"
proof (induction s)
  case Nil
  show ?case by simp
next
  case (Cons c cs)
  then have IH: "spec_pieces cs = split cs 0x20"
    by simp
  from Cons.prems have "isWhiteSpace c \<longleftrightarrow> c = 0x20"
    using space_isWhiteSpace by auto
  with IH show ?case
    by simp
qed

lemma parse_agrees_with_spec:
  assumes "trim raw \<noteq> []"
    and "\<forall>c\<in>set (trim raw). isWhiteSpace c \<longrightarrow> c = 0x20"
  shows "spec_parseName raw = (parsedFirstName raw, parsedLastInitial raw)"
proof -
  let ?ne = "\<lambda>t::jsstring. t \<noteq> []"
  have toks: "spec_tokens (trim raw) = filter ?ne (nameParts raw)"
    using assms(2) by (simp add: spec_tokens_def nameParts_def spec_pieces_split)
  obtain t rest where ts: "nameParts raw = t # rest"
    using nameParts_not_Nil [of raw] by (cases "nameParts raw") auto
  have t: "t \<noteq> []"
    using nameParts_first_nonempty [OF assms(1)] by (simp add: parsedFirstName_def ts)
  have F: "spec_tokens (trim raw) = t # filter ?ne rest"
    unfolding toks ts using t by simp
  have P1: "parsedFirstName raw = t"
    by (simp add: parsedFirstName_def ts)
  have P2: "parsedLastInitial raw =
      (if rest \<noteq> [] then toUpperCase (take 1 (last rest)) else [])"
    unfolding parsedLastInitial_last ts by simp
  show ?thesis
  proof (cases "rest = []")
    case True
    then have "spec_parseName raw = (t, [])"
      unfolding spec_parseName_def F by simp
    with True show ?thesis
      unfolding P1 P2 by simp
  next
    case False
    then have l: "last rest \<noteq> []"
      using nameParts_last_nonempty [OF assms(1)] by (simp add: ts)
    have ne: "filter ?ne rest \<noteq> []"
    proof
      assume "filter ?ne rest = []"
      then have "\<forall>x\<in>set rest. \<not> ?ne x"
        by (simp only: filter_empty_conv)
      with False l show False
        using last_in_set [of rest] by blast
    qed
    have lf: "last (filter ?ne rest) = last rest"
      using False l by (rule last_filter_keep)
    have "spec_parseName raw = (t, toUpperCase (take 1 (last rest)))"
      unfolding spec_parseName_def F using ne lf by (simp add: Let_def)
    with False show ?thesis
      unfolding P1 P2 by simp
  qed
qed

subsection \<open>Identity keys along a run\<close>

text \<open>
  After any run from the seed no two members of the list have the same identity key: a
  join appends a member only when no member has its key, and a removal keeps that.
\<close>

lemma step_keys_distinct:
  assumes "distinct (map identityKey (queueList s))"
  shows "distinct (map identityKey (queueList (step a s)))"
proof (cases a)
  case (Join raw now)
  have q: "queueList (onChangeName raw s) = queueList s"
    and u: "userName (onChangeName raw s) = raw"
    by (simp_all add: onChangeName_def)
  from handleNameSubmit_queueList [of now "onChangeName raw s"]
  show ?thesis
  proof
    assume "queueList (handleNameSubmit now (onChangeName raw s)) = queueList (onChangeName raw s)"
    with assms Join q show ?thesis
      by simp
  next
    assume new: "queueList (handleNameSubmit now (onChangeName raw s)) =
        queueList (onChangeName raw s) @
          [\<lparr>id_member = maxId (queueList (onChangeName raw s)) + 1,
            firstName = parsedFirstName (userName (onChangeName raw s)),
            lastInitial = parsedLastInitial (userName (onChangeName raw s)), joinedTime = now\<rparr>]
      \<and> \<not> list_ex (isUser (parsedFirstName (userName (onChangeName raw s)))
             (parsedLastInitial (userName (onChangeName raw s)))) (queueList (onChangeName raw s))"
    then have "(parsedFirstName raw, parsedLastInitial raw) \<notin> set (map identityKey (queueList s))"
      by (simp only: q u list_ex_isUser_iff not_False_eq_True)
    with new assms Join show ?thesis
      by (simp add: q u identityKey_def)
  qed
next
  case Leave
  with assms show ?thesis
    by (simp add: handleRemoveFromQueue_def distinct_map_filter)
qed

lemma reachable_keys_distinct:
  "distinct (map identityKey (queueList (run (initialState t0) acts)))"
proof -
  have "distinct (map identityKey (queueList s)) \<Longrightarrow>
      distinct (map identityKey (queueList (run s acts)))" for s
    unfolding run_def
    by (induction acts arbitrary: s) (simp_all add: step_keys_distinct)
  moreover have "distinct (map identityKey (queueList (initialState t0)))"
    by (simp add: initialState_def lit_def identityKey_def)
  ultimately show ?thesis .
qed

end
